theory Spec2Isabelle
  imports Main "HOL-Library.Multiset"
begin

section \<open>The TIZO rate cache and the custom top-up calculator\<close>

text \<open>
  The server keeps the rows of the table \<open>upsell_offers\<close> in the module-level variable
  \<open>upsellOffersCache\<close> and computes the TIZO credit of a custom top-up amount with
  \<open>calculateCustomTizo\<close>. Amounts and table columns are JavaScript numbers holding
  integers; they are modelled as \<open>int\<close>. The calculator is first modelled on exact
  integers: that is the arithmetic of the engine as long as the amount and every total
  it computes stay within \<open>2^53\<close> in magnitude (a total is about twice the amount, so an
  amount below \<open>2^53\<close> is not enough). Past that range the engine rounds every sum to
  the nearest binary64 number; the calculator with this rounding is modelled a second
  time, in the subsection on the numbers of the engine, for the one property whose exact
  value depends on it.
\<close>

subsection \<open>Data\<close>

text \<open>A row of \<open>upsell_offers\<close>, with the two columns the calculator reads.\<close>

record offer =
  topup_rb :: int
  tizo_value :: int

text \<open>
  JavaScript arrays are objects: a variable holds a reference, and \<open>sort\<close> works in
  place. The store is the list of the array objects allocated so far, and a reference is
  an index into it.
\<close>

type_synonym ref = nat

datatype log_entry = Loaded nat | LoadFailed string

text \<open>How a call or an awaited promise completes: with a value, or by throwing.\<close>

datatype 'a completion = Returned 'a | Thrown string

record server =
  heap :: "offer list list"
  upsellOffersCache :: "ref option"
  console :: "log_entry list"

text \<open>\<open>let upsellOffersCache = null\<close>: the state of a process that has just started.\<close>

definition initial_server :: server where
  "initial_server = \<lparr>heap = [], upsellOffersCache = None, console = []\<rparr>"

definition alloc :: "offer list \<Rightarrow> server \<Rightarrow> ref \<times> server" where
  "alloc xs s = (length (heap s), s\<lparr>heap := heap s @ [xs]\<rparr>)"

text \<open>The array the cache variable points to, if it is not \<open>null\<close>.\<close>

definition snapshot :: "server \<Rightarrow> offer list option" where
  "snapshot s = (case upsellOffersCache s of None \<Rightarrow> None | Some r \<Rightarrow> Some (heap s ! r))"

text \<open>Every reference held by the cache variable points into the store.\<close>

definition wf_server :: "server \<Rightarrow> bool" where
  "wf_server s = (case upsellOffersCache s of None \<Rightarrow> True | Some r \<Rightarrow> r < length (heap s))"

subsection \<open>loadUpsellOffersCache\<close>

text \<open>
  \<^verbatim>\<open>
  async function loadUpsellOffersCache() {
      try {
          const result = await pool.query('SELECT * FROM upsell_offers ORDER BY topup_rb');
          upsellOffersCache = result.rows;
          console.log('Loaded', upsellOffersCache.length, 'TIZO rates from database');
      } catch (err) {
          console.error('Failed to load upsell offers:', err.message);
      }
  }
  \<close>
  The database is outside the program: the completion of the awaited query is a
  parameter. \<open>Returned rows\<close> is a resolved query with its \<open>result.rows\<close>, which becomes a
  new array object; \<open>Thrown msg\<close> is a rejected one. The function has no \<open>throw\<close> and
  catches what the \<open>await\<close> throws, so it always returns.
\<close>

definition loadUpsellOffersCache :: "offer list completion \<Rightarrow> server \<Rightarrow> unit completion \<times> server" where
  "loadUpsellOffersCache query s =
     (case query of
        Returned rows \<Rightarrow>
          (let (r, s1) = alloc rows s;
               s2 = s1\<lparr>upsellOffersCache := Some r\<rparr>;
               s3 = s2\<lparr>console := console s2 @ [Loaded (length (heap s2 ! r))]\<rparr>
           in (Returned (), s3))
      | Thrown msg \<Rightarrow>
          (Returned (), s\<lparr>console := console s @ [LoadFailed msg]\<rparr>))"

text \<open>
  What the query \<open>SELECT * FROM upsell_offers ORDER BY topup_rb\<close> may answer on a table:
  the rows of the table, in ascending order of \<open>topup_rb\<close> (SQL leaves the order of rows
  with equal keys open).
\<close>

definition select_order_by_topup_rb :: "offer list \<Rightarrow> offer list \<Rightarrow> bool" where
  "select_order_by_topup_rb table rows =
     (mset rows = mset table \<and> sorted (map topup_rb rows))"

text \<open>
  The function stores \<open>result.rows\<close> as it comes; no row is looked at. A row is expected
  to consume a positive amount per application: rows with a \<open>topup_rb\<close> that is zero or
  negative are the malformed rows of this model (a row without the two columns, or with
  a value that is not a number, is not a value of the type \<open>offer\<close>).
\<close>

definition malformed_rows :: "offer list \<Rightarrow> bool" where
  "malformed_rows rows = (\<exists>x \<in> set rows. topup_rb x \<le> 0)"

subsection \<open>Array methods\<close>

text \<open>\<open>Array.prototype.filter\<close> allocates a new array and leaves its receiver alone.\<close>

definition array_filter :: "(offer \<Rightarrow> bool) \<Rightarrow> ref \<Rightarrow> server \<Rightarrow> ref \<times> server" where
  "array_filter p r s = alloc (filter p (heap s ! r)) s"

text \<open>
  \<open>Array.prototype.sort\<close> with a comparator is stable (ECMAScript 2019) and sorts its
  receiver in place: an element \<open>x\<close> that stood in front of \<open>y\<close> stays in front of it
  unless the comparator is positive on \<open>(x, y)\<close>.
\<close>

fun insort_cmp :: "('a \<Rightarrow> 'a \<Rightarrow> int) \<Rightarrow> 'a \<Rightarrow> 'a list \<Rightarrow> 'a list" where
  "insort_cmp cmp x [] = [x]"
| "insort_cmp cmp x (y # ys) =
     (if cmp x y \<le> 0 then x # y # ys else y # insort_cmp cmp x ys)"

definition sort_cmp :: "('a \<Rightarrow> 'a \<Rightarrow> int) \<Rightarrow> 'a list \<Rightarrow> 'a list" where
  "sort_cmp cmp xs = foldr (insort_cmp cmp) xs []"

definition array_sort :: "(offer \<Rightarrow> offer \<Rightarrow> int) \<Rightarrow> ref \<Rightarrow> server \<Rightarrow> server" where
  "array_sort cmp r s = s\<lparr>heap := (heap s)[r := sort_cmp cmp (heap s ! r)]\<rparr>"

subsection \<open>calculateCustomTizo\<close>

text \<open>
  JavaScript's \<open>%\<close> truncates towards zero: the result has the sign of the dividend.
  \<open>Math.floor(a / 600)\<close> on integers is \<open>a div 600\<close>.
\<close>

definition js_rem :: "int \<Rightarrow> int \<Rightarrow> int" where
  "js_rem a b = sgn a * (\<bar>a\<bar> mod \<bar>b\<bar>)"

text \<open>
  \<^verbatim>\<open>
  while (remaining >= offer.topup_rb) {
      totalTizo += offer.tizo_value;
      remaining -= offer.topup_rb;
  }
  \<close>
  The loop need not end (a row with \<open>topup_rb \<le> 0\<close>), so it is a partial function:
  \<open>None\<close> is a loop that runs forever.
\<close>

partial_function (option) while_offer :: "offer \<Rightarrow> int \<Rightarrow> int \<Rightarrow> (int \<times> int) option" where
  "while_offer offer totalTizo remaining =
     (if remaining \<ge> topup_rb offer
      then while_offer offer (totalTizo + tizo_value offer) (remaining - topup_rb offer)
      else Some (totalTizo, remaining))"

declare while_offer.simps [code]

text \<open>\<open>for (const offer of validOffers) { while ... }\<close>\<close>

fun for_offers :: "offer list \<Rightarrow> int \<Rightarrow> int \<Rightarrow> (int \<times> int) option" where
  "for_offers [] totalTizo remaining = Some (totalTizo, remaining)"
| "for_offers (offer # validOffers) totalTizo remaining =
     (case while_offer offer totalTizo remaining of
        None \<Rightarrow> None
      | Some (totalTizo', remaining') \<Rightarrow> for_offers validOffers totalTizo' remaining')"

text \<open>
  \<^verbatim>\<open>
  function calculateCustomTizo(amountRb) {
      let totalTizo = 0;
      let remaining = amountRb;
      const base600Count = Math.floor(remaining / 600);
      if (base600Count > 0) {
          totalTizo += base600Count * 1200;
          remaining = remaining % 600;
      }
      if (remaining > 0 && upsellOffersCache && upsellOffersCache.length > 0) {
          const validOffers = upsellOffersCache
              .filter(o => o.topup_rb < 600)
              .sort((a, b) => b.topup_rb - a.topup_rb);
          for (const offer of validOffers) { ... }
      }
      if (remaining > 0) {
          totalTizo += remaining;
      }
      return totalTizo;
  }
  \<close>
  The function reads the cache variable and the store, and returns the credit with the
  server it leaves behind. \<open>base600\<close> is the first \<open>if\<close> (step 1) and gives
  \<open>(totalTizo, remaining)\<close> after it; \<open>residual\<close> is the last \<open>if\<close> (step 3) with the
  \<open>return\<close>. The function body has no \<open>throw\<close>; a call that never leaves the inner loop
  is \<open>None\<close>.
\<close>

definition base600 :: "int \<Rightarrow> int \<times> int" where
  "base600 amountRb =
     (let totalTizo = 0; remaining = amountRb; base600Count = remaining div 600
      in if base600Count > 0
         then (totalTizo + base600Count * 1200, js_rem remaining 600)
         else (totalTizo, remaining))"

definition residual :: "int \<times> int \<Rightarrow> int" where
  "residual st = (case st of (totalTizo, remaining) \<Rightarrow>
     if remaining > 0 then totalTizo + remaining else totalTizo)"

definition calculateCustomTizo :: "int \<Rightarrow> server \<Rightarrow> (int \<times> server) option" where
  "calculateCustomTizo amountRb s =
     (case base600 amountRb of (totalTizo, remaining) \<Rightarrow>
        (case upsellOffersCache s of
           None \<Rightarrow> Some (residual (totalTizo, remaining), s)
         | Some r \<Rightarrow>
             if remaining > 0 \<and> length (heap s ! r) > 0
             then
               (let (r1, s1) = array_filter (\<lambda>x. topup_rb x < 600) r s;
                    s2 = array_sort (\<lambda>a b. topup_rb b - topup_rb a) r1 s1;
                    validOffers = heap s2 ! r1
                in case for_offers validOffers totalTizo remaining of
                     None \<Rightarrow> None
                   | Some st \<Rightarrow> Some (residual st, s2))
             else Some (residual (totalTizo, remaining), s)))"

text \<open>
  The converter as a function of the amount and of the cache snapshot: the credit that
  \<open>calculateCustomTizo\<close> returns on a server whose cache variable holds that snapshot
  (\<open>None\<close> for \<open>null\<close>). The result \<open>None\<close> is a call that never returns.
\<close>

definition server_with :: "offer list option \<Rightarrow> server" where
  "server_with snap =
     (case snap of
        None \<Rightarrow> initial_server
      | Some xs \<Rightarrow> \<lparr>heap = [xs], upsellOffersCache = Some 0, console = []\<rparr>)"

definition convert :: "int \<Rightarrow> offer list option \<Rightarrow> int option" where
  "convert amountRb snap = map_option fst (calculateCustomTizo amountRb (server_with snap))"

text \<open>The rows of a snapshot; an uninitialised cache has none.\<close>

definition tiers :: "offer list option \<Rightarrow> offer list" where
  "tiers snap = (case snap of None \<Rightarrow> [] | Some xs \<Rightarrow> xs)"

subsection \<open>The numbers of the engine\<close>

text \<open>
  A JavaScript number is a binary64 floating-point number: it holds every integer up to
  \<open>2^53\<close> in magnitude, and beyond that only the integers with 53 significant bits.
  \<open>+\<close>, \<open>-\<close> and \<open>*\<close> return the exact result rounded to the nearest such number,
  a tie going to the one with an even 53-bit significand. (Overflow to \<open>Infinity\<close>,
  past \<open>2^1024\<close>, is not modelled.)
\<close>

function bit_length :: "int \<Rightarrow> nat" where
  "bit_length n = (if n \<le> 0 then 0 else Suc (bit_length (n div 2)))"
  by pat_completeness auto
termination
  by (relation "measure nat") auto

declare bit_length.simps [simp del]

text \<open>
  \<open>e\<close> is the number of low bits that do not fit into the significand, \<open>q\<close> the
  significand before rounding and \<open>r\<close> what is cut off.
\<close>

definition binary64 :: "int \<Rightarrow> int" where
  "binary64 x =
     (let n = \<bar>x\<bar>;
          e = bit_length n - 53;
          q = n div 2 ^ e;
          r = n mod 2 ^ e;
          m = (if 2 * r > 2 ^ e \<or> (2 * r = 2 ^ e \<and> odd q) then q + 1 else q)
      in sgn x * (m * 2 ^ e))"

definition js_add :: "int \<Rightarrow> int \<Rightarrow> int" where
  "js_add a b = binary64 (a + b)"

definition js_sub :: "int \<Rightarrow> int \<Rightarrow> int" where
  "js_sub a b = binary64 (a - b)"

definition js_mul :: "int \<Rightarrow> int \<Rightarrow> int" where
  "js_mul a b = binary64 (a * b)"

text \<open>
  The calculator once more, with the operators of the engine. \<open>%\<close> is exact in
  binary64, and so are the comparisons. \<open>Math.floor(remaining / 600)\<close> is
  \<open>remaining div 600\<close> for every integer below \<open>2^53\<close> in magnitude: the quotient is
  below \<open>2^44\<close>, so the rounding of the division moves it by at most \<open>2^-10\<close>, less
  than the distance \<open>1/600\<close> that separates a quotient which is not an integer from
  the nearest integer.
\<close>

partial_function (option) while_offer_number :: "offer \<Rightarrow> int \<Rightarrow> int \<Rightarrow> (int \<times> int) option" where
  "while_offer_number offer totalTizo remaining =
     (if remaining \<ge> topup_rb offer
      then while_offer_number offer (js_add totalTizo (tizo_value offer))
             (js_sub remaining (topup_rb offer))
      else Some (totalTizo, remaining))"

declare while_offer_number.simps [code]

fun for_offers_number :: "offer list \<Rightarrow> int \<Rightarrow> int \<Rightarrow> (int \<times> int) option" where
  "for_offers_number [] totalTizo remaining = Some (totalTizo, remaining)"
| "for_offers_number (offer # validOffers) totalTizo remaining =
     (case while_offer_number offer totalTizo remaining of
        None \<Rightarrow> None
      | Some (totalTizo', remaining') \<Rightarrow> for_offers_number validOffers totalTizo' remaining')"

definition base600_number :: "int \<Rightarrow> int \<times> int" where
  "base600_number amountRb =
     (let totalTizo = 0; remaining = amountRb; base600Count = remaining div 600
      in if base600Count > 0
         then (js_add totalTizo (js_mul base600Count 1200), js_rem remaining 600)
         else (totalTizo, remaining))"

definition residual_number :: "int \<times> int \<Rightarrow> int" where
  "residual_number st = (case st of (totalTizo, remaining) \<Rightarrow>
     if remaining > 0 then js_add totalTizo remaining else totalTizo)"

definition calculateCustomTizo_number :: "int \<Rightarrow> server \<Rightarrow> (int \<times> server) option" where
  "calculateCustomTizo_number amountRb s =
     (case base600_number amountRb of (totalTizo, remaining) \<Rightarrow>
        (case upsellOffersCache s of
           None \<Rightarrow> Some (residual_number (totalTizo, remaining), s)
         | Some r \<Rightarrow>
             if remaining > 0 \<and> length (heap s ! r) > 0
             then
               (let (r1, s1) = array_filter (\<lambda>x. topup_rb x < 600) r s;
                    s2 = array_sort (\<lambda>a b. js_sub (topup_rb b) (topup_rb a)) r1 s1;
                    validOffers = heap s2 ! r1
                in case for_offers_number validOffers totalTizo remaining of
                     None \<Rightarrow> None
                   | Some st \<Rightarrow> Some (residual_number st, s2))
             else Some (residual_number (totalTizo, remaining), s)))"

definition convert_number :: "int \<Rightarrow> offer list option \<Rightarrow> int option" where
  "convert_number amountRb snap =
     map_option fst (calculateCustomTizo_number amountRb (server_with snap))"

text \<open>
  The array that \<open>filter\<close> and \<open>sort\<close> leave in \<open>validOffers\<close>, as a function of
  the rows of the cache.
\<close>

abbreviation validOffers :: "offer list \<Rightarrow> offer list" where
  "validOffers xs \<equiv>
     sort_cmp (\<lambda>a b. topup_rb b - topup_rb a) (filter (\<lambda>x. topup_rb x < 600) xs)"

subsection \<open>The documented example\<close>

text \<open>
  The two rows of the example in the comment of \<open>calculateCustomTizo\<close>, and the rows
  that the greedy pass over the remainder 590 of 1790 walks past: when the pass reaches
  such a row, the row asks for more than is left (590 before the 550 row, 40 between the
  550 and the 40 row, 0 after it).
\<close>

abbreviation tier_550 :: offer where
  "tier_550 \<equiv> \<lparr>topup_rb = 550, tizo_value = 1020\<rparr>"

abbreviation tier_40 :: offer where
  "tier_40 \<equiv> \<lparr>topup_rb = 40, tizo_value = 40\<rparr>"

definition leaves_1790_alone :: "offer \<Rightarrow> bool" where
  "leaves_1790_alone x =
     (590 < topup_rb x \<or> (40 < topup_rb x \<and> topup_rb x < 550) \<or>
      (0 < topup_rb x \<and> topup_rb x < 40))"

section \<open>Properties\<close>

subsection \<open>Arithmetic of the base tier\<close>

lemma js_rem_nonneg: "0 \<le> a \<Longrightarrow> js_rem a 600 = a mod 600"
  by (cases "a = 0") (simp_all add: js_rem_def)

lemma base600_nonneg: "0 \<le> a \<Longrightarrow> base600 a = ((a div 600) * 1200, a mod 600)"
proof (cases "a < 600")
  case False
  assume "0 \<le> a"
  with False have "0 < a div 600" by (simp add: pos_imp_zdiv_pos_iff)
  with \<open>0 \<le> a\<close> show ?thesis by (simp add: base600_def Let_def js_rem_nonneg)
next
  case True
  assume a: "0 \<le> a"
  with True have "a div 600 = 0" "a mod 600 = a"
    by simp_all
  then show ?thesis by (simp add: base600_def Let_def)
qed

lemma base600_neg: "a < 0 \<Longrightarrow> base600 a = (0, a)"
proof -
  assume "a < 0"
  then have "a div 600 < 0" by (simp add: div_neg_pos_less0)
  then show ?thesis by (simp add: base600_def Let_def)
qed

subsection \<open>The comparator sort is a stable descending sort\<close>

lemma insort_cmp_desc:
  "insort_cmp (\<lambda>a b. topup_rb b - topup_rb a) x ys = insort_key (\<lambda>x. - topup_rb x) x ys"
  by (induction ys) simp_all

lemma sort_cmp_desc:
  "sort_cmp (\<lambda>a b. topup_rb b - topup_rb a) xs = sort_key (\<lambda>x. - topup_rb x) xs"
  by (induction xs) (simp_all add: sort_cmp_def insort_cmp_desc)

lemma set_validOffers: "set (validOffers xs) = {x \<in> set xs. topup_rb x < 600}"
  by (simp add: sort_cmp_desc)

lemma sorted_validOffers: "sorted (map (\<lambda>x. - topup_rb x) (validOffers xs))"
  by (simp add: sort_cmp_desc)

subsection \<open>The inner loop\<close>

text \<open>
  A row above the remaining amount is skipped, a row that fits is applied once more. With
  a positive \<open>topup_rb\<close> the loop ends after \<open>remaining div topup_rb\<close> rounds (the
  remaining amount decreases in each); with \<open>topup_rb \<le> 0\<close> it never ends once entered.
\<close>

lemma while_offer_skip:
  "remaining < topup_rb offer \<Longrightarrow> while_offer offer totalTizo remaining = Some (totalTizo, remaining)"
  by (subst while_offer.simps) simp

lemma while_offer_step:
  "topup_rb offer \<le> remaining \<Longrightarrow>
   while_offer offer totalTizo remaining =
   while_offer offer (totalTizo + tizo_value offer) (remaining - topup_rb offer)"
  by (subst while_offer.simps) simp

lemma while_offer_Some_fits:
  assumes "while_offer offer totalTizo remaining = Some st"
  shows "\<not> (topup_rb offer \<le> 0 \<and> topup_rb offer \<le> remaining)"
proof (rule while_offer.raw_induct
    [where P = "\<lambda>x t r st. \<not> (topup_rb x \<le> 0 \<and> topup_rb x \<le> r)", OF _ assms])
  fix f x t r st
  assume IH: "\<And>x t r st. f x t r = Some st \<Longrightarrow> \<not> (topup_rb x \<le> 0 \<and> topup_rb x \<le> r)"
    and body: "(if topup_rb x \<le> r then f x (t + tizo_value x) (r - topup_rb x) else Some (t, r)) = Some st"
  show "\<not> (topup_rb x \<le> 0 \<and> topup_rb x \<le> r)"
  proof
    assume a: "topup_rb x \<le> 0 \<and> topup_rb x \<le> r"
    with body have "f x (t + tizo_value x) (r - topup_rb x) = Some st"
      by simp
    from IH [OF this] a show False by simp
  qed
qed

lemma while_offer_diverges:
  "topup_rb offer \<le> 0 \<Longrightarrow> topup_rb offer \<le> remaining \<Longrightarrow>
   while_offer offer totalTizo remaining = None"
  using while_offer_Some_fits [of offer totalTizo remaining]
  by (cases "while_offer offer totalTizo remaining") auto

lemma while_offer_bonus:
  assumes "while_offer offer totalTizo remaining = Some st"
    and "topup_rb offer \<le> tizo_value offer"
  shows "totalTizo + remaining \<le> fst st + snd st"
proof -
  have "topup_rb offer \<le> tizo_value offer \<longrightarrow> totalTizo + remaining \<le> fst st + snd st"
  proof (rule while_offer.raw_induct
      [where P = "\<lambda>x t r st. topup_rb x \<le> tizo_value x \<longrightarrow> t + r \<le> fst st + snd st",
        OF _ assms(1)])
    fix f x t r st
    assume IH: "\<And>x t r st. f x t r = Some st \<Longrightarrow>
                 topup_rb x \<le> tizo_value x \<longrightarrow> t + r \<le> fst st + snd st"
      and body: "(if topup_rb x \<le> r then f x (t + tizo_value x) (r - topup_rb x) else Some (t, r)) = Some st"
    show "topup_rb x \<le> tizo_value x \<longrightarrow> t + r \<le> fst st + snd st"
    proof (cases "topup_rb x \<le> r")
      case True
      with body have "f x (t + tizo_value x) (r - topup_rb x) = Some st"
        by simp
      from IH [OF this] show ?thesis by auto
    next
      case False
      with body show ?thesis by auto
    qed
  qed
  with assms(2) show ?thesis by simp
qed

lemma while_offer_pos:
  assumes "0 < topup_rb offer" and "0 \<le> remaining"
  shows "while_offer offer totalTizo remaining =
         Some (totalTizo + (remaining div topup_rb offer) * tizo_value offer,
               remaining mod topup_rb offer)"
  using assms(2)
proof (induction "nat remaining" arbitrary: remaining totalTizo rule: less_induct)
  case less
  show ?case
  proof (cases "remaining < topup_rb offer")
    case True
    with less.prems show ?thesis
      by (simp add: while_offer_skip div_pos_pos_trivial mod_pos_pos_trivial)
  next
    case False
    let ?r = "remaining - topup_rb offer"
    from False assms(1) have r: "0 \<le> ?r" "nat ?r < nat remaining" by simp_all
    have e: "?r + topup_rb offer = remaining" by simp
    from assms(1) have nz: "topup_rb offer \<noteq> 0" by simp
    have d: "remaining div topup_rb offer = ?r div topup_rb offer + 1"
      using div_add_self2 [OF nz, of ?r] by (simp only: e)
    have m: "remaining mod topup_rb offer = ?r mod topup_rb offer"
      using mod_add_self2 [of ?r "topup_rb offer"] by (simp only: e)
    from False have "while_offer offer totalTizo remaining =
        while_offer offer (totalTizo + tizo_value offer) ?r"
      by (simp add: while_offer_step)
    also have "\<dots> = Some (totalTizo + tizo_value offer + (?r div topup_rb offer) * tizo_value offer,
                          ?r mod topup_rb offer)"
      using less.hyps [OF r(2) r(1)] .
    finally show ?thesis by (simp only: d m) (simp add: algebra_simps)
  qed
qed

subsection \<open>The loop over the rows\<close>

lemma for_offers_pos:
  "\<forall>x \<in> set ys. 0 < topup_rb x \<Longrightarrow> 0 \<le> remaining \<Longrightarrow>
   \<exists>t r. for_offers ys totalTizo remaining = Some (t, r) \<and> 0 \<le> r \<and> r \<le> remaining"
proof (induction ys arbitrary: totalTizo remaining)
  case Nil
  then show ?case by simp
next
  case (Cons x ys)
  from Cons.prems have x: "0 < topup_rb x" by simp
  let ?r = "remaining mod topup_rb x"
  from x Cons.prems(2) have r: "0 \<le> ?r" "?r \<le> remaining"
    by (simp_all add: zmod_le_nonneg_dividend)
  from Cons.prems(1) have "\<forall>x \<in> set ys. 0 < topup_rb x" by simp
  from Cons.IH [OF this r(1)] r(2) show ?case
    by (simp add: while_offer_pos [OF x Cons.prems(2)]) force
qed

lemma for_offers_diverges:
  "\<exists>x \<in> set ys. topup_rb x \<le> 0 \<Longrightarrow> 0 \<le> remaining \<Longrightarrow>
   for_offers ys totalTizo remaining = None"
proof (induction ys arbitrary: totalTizo remaining)
  case Nil
  then show ?case by simp
next
  case (Cons x ys)
  show ?case
  proof (cases "topup_rb x \<le> 0")
    case True
    with Cons.prems(2) have "while_offer x totalTizo remaining = None"
      by (intro while_offer_diverges) simp_all
    then show ?thesis by simp
  next
    case False
    then have x: "0 < topup_rb x" by simp
    with Cons.prems(1) have ex: "\<exists>x \<in> set ys. topup_rb x \<le> 0" by auto
    from x have "0 \<le> remaining mod topup_rb x" by simp
    from Cons.IH [OF ex this] show ?thesis
      by (simp add: while_offer_pos [OF x Cons.prems(2)])
  qed
qed

lemma for_offers_bonus:
  "for_offers ys totalTizo remaining = Some st \<Longrightarrow>
   \<forall>x \<in> set ys. topup_rb x \<le> tizo_value x \<Longrightarrow>
   totalTizo + remaining \<le> fst st + snd st"
proof (induction ys arbitrary: totalTizo remaining)
  case Nil
  then show ?case by auto
next
  case (Cons x ys)
  from Cons.prems(1) obtain t r where w: "while_offer x totalTizo remaining = Some (t, r)"
    and f: "for_offers ys t r = Some st"
    by (auto split: option.splits)
  from Cons.prems(2) have "topup_rb x \<le> tizo_value x" "\<forall>x \<in> set ys. topup_rb x \<le> tizo_value x"
    by simp_all
  from while_offer_bonus [OF w this(1)] Cons.IH [OF f this(2)] show ?case by simp
qed

lemma for_offers_zero:
  "\<forall>x \<in> set ys. 0 < topup_rb x \<Longrightarrow> for_offers ys totalTizo 0 = Some (totalTizo, 0)"
  by (induction ys) (simp_all add: while_offer_skip)

lemma for_offers_40:
  assumes "sorted (map (\<lambda>x. - topup_rb x) ys)" and "tier_40 \<in> set ys"
    and "\<forall>x \<in> set ys. x = tier_550 \<or> x = tier_40 \<or> leaves_1790_alone x"
  shows "for_offers ys totalTizo 40 = Some (totalTizo + 40, 0)"
  using assms
proof (induction ys)
  case Nil
  then show ?case by simp
next
  case (Cons x ys)
  from Cons.prems(3) have pos: "\<forall>x \<in> set ys. 0 < topup_rb x"
    by (auto simp add: leaves_1790_alone_def)
  show ?case
  proof (cases "x = tier_40")
    case True
    have "while_offer tier_40 totalTizo 40 = Some (totalTizo + 40, 0)"
      using while_offer_pos [of tier_40 40 totalTizo] by simp
    with True pos show ?thesis by (simp add: for_offers_zero)
  next
    case False
    with Cons.prems(2) have in_ys: "tier_40 \<in> set ys" by simp
    with Cons.prems(1) have "40 \<le> topup_rb x" by auto
    with False Cons.prems(3) have "40 < topup_rb x"
      by (auto simp add: leaves_1790_alone_def)
    then have "while_offer x totalTizo 40 = Some (totalTizo, 40)"
      by (rule while_offer_skip)
    moreover from Cons.prems have "for_offers ys totalTizo 40 = Some (totalTizo + 40, 0)"
      by (intro Cons.IH in_ys) simp_all
    ultimately show ?thesis by simp
  qed
qed

lemma for_offers_590:
  assumes "sorted (map (\<lambda>x. - topup_rb x) ys)" and "tier_550 \<in> set ys" and "tier_40 \<in> set ys"
    and "\<forall>x \<in> set ys. x = tier_550 \<or> x = tier_40 \<or> leaves_1790_alone x"
  shows "for_offers ys totalTizo 590 = Some (totalTizo + 1060, 0)"
  using assms
proof (induction ys)
  case Nil
  then show ?case by simp
next
  case (Cons x ys)
  show ?case
  proof (cases "x = tier_550")
    case True
    have w: "while_offer tier_550 totalTizo 590 = Some (totalTizo + 1020, 40)"
      using while_offer_pos [of tier_550 590 totalTizo] by simp
    from True Cons.prems(3) have "tier_40 \<in> set ys" by auto
    with Cons.prems have "for_offers ys (totalTizo + 1020) 40 = Some (totalTizo + 1020 + 40, 0)"
      by (intro for_offers_40) simp_all
    with True w show ?thesis by simp
  next
    case False
    with Cons.prems(2) have in_ys: "tier_550 \<in> set ys" by simp
    with Cons.prems(1) have "550 \<le> topup_rb x" by auto
    with False Cons.prems(4) have x: "590 < topup_rb x" "x \<noteq> tier_40"
      by (auto simp add: leaves_1790_alone_def)
    then have "while_offer x totalTizo 590 = Some (totalTizo, 590)"
      by (intro while_offer_skip)
    moreover from x Cons.prems have "for_offers ys totalTizo 590 = Some (totalTizo + 1060, 0)"
      by (intro Cons.IH in_ys) simp_all
    ultimately show ?thesis by simp
  qed
qed

subsection \<open>The calculator, branch by branch\<close>

lemma calculateCustomTizo_null:
  "upsellOffersCache s = None \<Longrightarrow>
   calculateCustomTizo amountRb s = Some (residual (base600 amountRb), s)"
  by (simp add: calculateCustomTizo_def split: prod.splits)

lemma calculateCustomTizo_skip:
  "upsellOffersCache s = Some r \<Longrightarrow> \<not> (0 < snd (base600 amountRb) \<and> heap s ! r \<noteq> []) \<Longrightarrow>
   calculateCustomTizo amountRb s = Some (residual (base600 amountRb), s)"
  by (auto simp add: calculateCustomTizo_def split: prod.splits)

lemma calculateCustomTizo_greedy:
  assumes "upsellOffersCache s = Some r" and "0 < snd (base600 amountRb)" and "heap s ! r \<noteq> []"
  shows "calculateCustomTizo amountRb s =
   map_option (\<lambda>st. (residual st, s\<lparr>heap := heap s @ [validOffers (heap s ! r)]\<rparr>))
     (for_offers (validOffers (heap s ! r)) (fst (base600 amountRb)) (snd (base600 amountRb)))"
proof (cases "base600 amountRb")
  case (Pair totalTizo remaining)
  with assms show ?thesis
    by (simp add: calculateCustomTizo_def array_filter_def array_sort_def alloc_def Let_def
        split: option.splits)
qed

lemma convert_unfold:
  "convert amountRb snap =
     (if 0 < snd (base600 amountRb) \<and> tiers snap \<noteq> []
      then map_option residual
             (for_offers (validOffers (tiers snap)) (fst (base600 amountRb)) (snd (base600 amountRb)))
      else Some (residual (base600 amountRb)))"
proof (cases snap)
  case None
  then show ?thesis
    by (simp add: convert_def server_with_def initial_server_def tiers_def calculateCustomTizo_null)
next
  case (Some xs)
  let ?s = "\<lparr>heap = [xs], upsellOffersCache = Some 0, console = []\<rparr>"
  have c: "upsellOffersCache ?s = Some 0" and h: "heap ?s ! 0 = xs" by simp_all
  from Some have t: "tiers snap = xs" and s: "server_with snap = ?s"
    by (simp_all add: tiers_def server_with_def)
  show ?thesis
  proof (cases "0 < snd (base600 amountRb) \<and> xs \<noteq> []")
    case True
    then have "0 < snd (base600 amountRb)" "heap ?s ! 0 \<noteq> []" by simp_all
    from calculateCustomTizo_greedy [OF c this] have
      "convert amountRb snap = map_option residual
         (for_offers (validOffers xs) (fst (base600 amountRb)) (snd (base600 amountRb)))"
      by (simp add: convert_def s option.map_comp comp_def)
    with True show ?thesis by (simp add: t)
  next
    case False
    then have "\<not> (0 < snd (base600 amountRb) \<and> heap ?s ! 0 \<noteq> [])" by simp
    from calculateCustomTizo_skip [OF c this]
    have "convert amountRb snap = Some (residual (base600 amountRb))"
      by (simp add: convert_def s)
    with False show ?thesis by (auto simp add: t)
  qed
qed

lemma calculateCustomTizo_convert:
  "map_option fst (calculateCustomTizo amountRb s) = convert amountRb (snapshot s)"
proof (cases "upsellOffersCache s")
  case None
  then show ?thesis
    by (simp add: convert_unfold snapshot_def tiers_def calculateCustomTizo_null)
next
  case (Some r)
  then have t: "tiers (snapshot s) = heap s ! r" by (simp add: snapshot_def tiers_def)
  show ?thesis
  proof (cases "0 < snd (base600 amountRb) \<and> heap s ! r \<noteq> []")
    case True
    then have "0 < snd (base600 amountRb)" "heap s ! r \<noteq> []" by simp_all
    from calculateCustomTizo_greedy [OF Some this] True show ?thesis
      by (simp add: convert_unfold t option.map_comp comp_def)
  next
    case False
    from calculateCustomTizo_skip [OF Some False] False show ?thesis
      by (auto simp add: convert_unfold t)
  qed
qed

lemma calculateCustomTizo_effect:
  assumes "calculateCustomTizo amountRb s = Some (t, s')"
  shows "s' = s \<or> (\<exists>ys. s' = s\<lparr>heap := heap s @ [ys]\<rparr>)"
proof (cases "upsellOffersCache s")
  case None
  with assms show ?thesis by (simp add: calculateCustomTizo_null)
next
  case (Some r)
  show ?thesis
  proof (cases "0 < snd (base600 amountRb) \<and> heap s ! r \<noteq> []")
    case True
    then have "0 < snd (base600 amountRb)" "heap s ! r \<noteq> []" by simp_all
    from calculateCustomTizo_greedy [OF Some this] assms show ?thesis
      by (cases "for_offers (validOffers (heap s ! r)) (fst (base600 amountRb)) (snd (base600 amountRb))")
        (simp_all, blast)
  next
    case False
    from calculateCustomTizo_skip [OF Some False] assms show ?thesis by simp
  qed
qed

lemma snapshot_alloc:
  "wf_server s \<Longrightarrow> snapshot (s\<lparr>heap := heap s @ [ys]\<rparr>) = snapshot s"
  by (simp add: snapshot_def wf_server_def nth_append split: option.splits)

subsection \<open>Loading, and rows that make the calculator loop\<close>

lemma convert_forever:
  assumes "\<exists>x \<in> set xs. topup_rb x \<le> 0" and "0 \<le> amountRb" and "amountRb mod 600 \<noteq> 0"
  shows "convert amountRb (Some xs) = None"
proof -
  define k m where "k = amountRb div 600" and "m = amountRb mod 600"
  have b: "base600 amountRb = (k * 1200, m)"
    using assms(2) by (simp add: base600_nonneg k_def m_def)
  have m: "0 \<le> m" by (simp add: m_def)
  with assms(3) have pos: "0 < m" by (simp add: m_def)
  from assms(1) have ne: "xs \<noteq> []" by auto
  from assms(1) have "\<exists>x \<in> set (validOffers xs). topup_rb x \<le> 0"
    by (auto simp add: set_validOffers)
  from for_offers_diverges [OF this m]
  have "for_offers (validOffers xs) (k * 1200) m = None" .
  with b pos ne show ?thesis by (simp add: convert_unfold tiers_def)
qed

lemma loadUpsellOffersCache_Returned:
  "loadUpsellOffersCache (Returned rows) s =
     (Returned (), s\<lparr>heap := heap s @ [rows], upsellOffersCache := Some (length (heap s)),
                       console := console s @ [Loaded (length rows)]\<rparr>)"
  by (simp add: loadUpsellOffersCache_def alloc_def)

subsection \<open>Rounding is the identity up to \<open>2^53\<close>\<close>

lemma bit_length_le: "n < 2 ^ k \<Longrightarrow> bit_length n \<le> k"
proof (induction k arbitrary: n)
  case 0
  then show ?case by (subst bit_length.simps) simp
next
  case (Suc k)
  show ?case
  proof (cases "n \<le> 0")
    case True
    then show ?thesis by (subst bit_length.simps) simp
  next
    case False
    from Suc.prems have "n div 2 < 2 ^ k" by simp
    from Suc.IH [OF this] False show ?thesis by (subst bit_length.simps) simp
  qed
qed

lemma binary64_small: "\<bar>x\<bar> < 2 ^ 53 \<Longrightarrow> binary64 x = x"
proof -
  assume "\<bar>x\<bar> < 2 ^ 53"
  then have "bit_length \<bar>x\<bar> \<le> 53" by (rule bit_length_le)
  then have "bit_length \<bar>x\<bar> - 53 = 0" by simp
  then show ?thesis by (simp add: binary64_def Let_def mult_sgn_abs)
qed

lemma binary64_2_53: "binary64 9007199254740992 = 9007199254740992"
  by code_simp

lemma binary64_exact: "0 \<le> x \<Longrightarrow> x \<le> 9007199254740992 \<Longrightarrow> binary64 x = x"
  using binary64_small [of x] binary64_2_53 by (cases "x = 9007199254740992") simp_all

lemma calculateCustomTizo_number_empty:
  assumes "snap = None \<or> snap = Some []"
  shows "convert_number amountRb snap = Some (residual_number (base600_number amountRb))"
  using assms
  by (auto simp add: convert_number_def calculateCustomTizo_number_def server_with_def
      initial_server_def split: prod.splits)

section \<open>The claims\<close>

text \<open>
  Claim C1. On every cache that holds the rows \<open>{550, 1020}\<close> and \<open>{40, 40}\<close> and,
  besides them, only rows that do not fit into what is left when the greedy pass reaches
  them, the amount 1790 yields exactly 3460: twice the base tier (2400), the 550 row once
  (1020) and the 40 row once (40).
\<close>

theorem calculateCustomTizo_1790:
  assumes "tier_550 \<in> set xs" and "tier_40 \<in> set xs"
    and "\<forall>x \<in> set xs. x = tier_550 \<or> x = tier_40 \<or> leaves_1790_alone x"
  shows "convert 1790 (Some xs) = Some 3460"
proof -
  have b: "base600 1790 = (2400, 590)" by (simp add: base600_nonneg)
  from assms(1) have ne: "tiers (Some xs) \<noteq> []" by (auto simp add: tiers_def)
  have "for_offers (validOffers xs) 2400 590 = Some (2400 + 1060, 0)"
    using assms by (intro for_offers_590 sorted_validOffers) (simp_all add: set_validOffers)
  with b ne show ?thesis
    by (simp add: convert_unfold tiers_def residual_def)
qed

text \<open>
  Witness for C1: the two rows in ascending order, with a row of 100 between them and a
  row of 700 after them.
\<close>

theorem calculateCustomTizo_1790_witness:
  "convert 1790 (Some [tier_40, \<lparr>topup_rb = 100, tizo_value = 150\<rparr>, tier_550,
                        \<lparr>topup_rb = 700, tizo_value = 1500\<rparr>]) = Some 3460"
  using calculateCustomTizo_1790
    [of "[tier_40, \<lparr>topup_rb = 100, tizo_value = 150\<rparr>, tier_550, \<lparr>topup_rb = 700, tizo_value = 1500\<rparr>]"]
  by (simp add: leaves_1790_alone_def)

text \<open>
  Claim C2, as stated, fails: a negative amount is not rejected. On a server that has just
  started, \<open>calculateCustomTizo(-5)\<close> returns the number 0.
\<close>

theorem calculateCustomTizo_negative_counterexample:
  "calculateCustomTizo (- 5) initial_server = Some (0, initial_server)"
  by (simp add: calculateCustomTizo_null initial_server_def base600_neg residual_def)

text \<open>
  Claim C2, amended. The function has no check of its argument: for every negative
  amount it returns 0 (the base tier, the greedy pass and the residual tier are all
  skipped) and leaves the server as it was.
\<close>

theorem calculateCustomTizo_negative:
  "amountRb < 0 \<Longrightarrow> calculateCustomTizo amountRb s = Some (0, s)"
proof -
  assume neg: "amountRb < 0"
  then have b: "base600 amountRb = (0, amountRb)" by (rule base600_neg)
  with neg have r: "residual (base600 amountRb) = 0" by (simp add: residual_def)
  show ?thesis
  proof (cases "upsellOffersCache s")
    case None
    with r show ?thesis by (simp add: calculateCustomTizo_null)
  next
    case (Some r')
    from neg b have "\<not> (0 < snd (base600 amountRb) \<and> heap s ! r' \<noteq> [])" by simp
    from calculateCustomTizo_skip [OF Some this] r show ?thesis by simp
  qed
qed

text \<open>
  Witness for the amended C2: the amount \<open>-1790\<close> on a cache with the two rows of the
  example.
\<close>

theorem calculateCustomTizo_negative_witness:
  "calculateCustomTizo (- 1790) (server_with (Some [tier_550, tier_40])) =
   Some (0, server_with (Some [tier_550, tier_40]))"
  using calculateCustomTizo_negative [of "- 1790" "server_with (Some [tier_550, tier_40])"]
  by simp

text \<open>
  Claim C3, as stated, fails on both of its triggers. When the query is rejected,
  \<open>loadUpsellOffersCache\<close> catches the error and returns normally: nothing is signalled
  to the caller. When the query is answered with a malformed row, the call returns
  normally as well, and the cache that held the rows 550 and 40 now holds the malformed
  row: the previous contents are not kept.
\<close>

theorem loadUpsellOffersCache_failure_counterexample:
  "fst (loadUpsellOffersCache (Thrown ''connect ECONNREFUSED'') initial_server) = Returned () \<and>
   snapshot (server_with (Some [tier_550, tier_40])) = Some [tier_550, tier_40] \<and>
   fst (loadUpsellOffersCache (Returned [\<lparr>topup_rb = 0, tizo_value = 0\<rparr>])
          (server_with (Some [tier_550, tier_40]))) = Returned () \<and>
   snapshot (snd (loadUpsellOffersCache (Returned [\<lparr>topup_rb = 0, tizo_value = 0\<rparr>])
          (server_with (Some [tier_550, tier_40])))) = Some [\<lparr>topup_rb = 0, tizo_value = 0\<rparr>]"
  by (simp add: loadUpsellOffersCache_def alloc_def snapshot_def server_with_def)

text \<open>
  Claim C3, amended. When the query is rejected, the call returns normally after logging
  the failure on the console; the cache variable and every array object are untouched,
  so the snapshot, and with it every later result of \<open>calculateCustomTizo\<close>, is the one
  from before the call. Rows are not validated: when the query is answered with malformed
  rows, the call does not fail either; it returns normally, the snapshot is exactly these
  rows (in a new array object, the earlier ones unchanged), and from then on the
  calculator never returns on a non-negative amount that is not a multiple of 600.
\<close>

theorem loadUpsellOffersCache_failure:
  "(loadUpsellOffersCache (Thrown msg) s = (Returned (), s\<lparr>console := console s @ [LoadFailed msg]\<rparr>)
    \<and> upsellOffersCache (snd (loadUpsellOffersCache (Thrown msg) s)) = upsellOffersCache s
    \<and> heap (snd (loadUpsellOffersCache (Thrown msg) s)) = heap s
    \<and> snapshot (snd (loadUpsellOffersCache (Thrown msg) s)) = snapshot s
    \<and> convert amountRb (snapshot (snd (loadUpsellOffersCache (Thrown msg) s))) =
        convert amountRb (snapshot s)
    \<and> map_option fst (calculateCustomTizo amountRb (snd (loadUpsellOffersCache (Thrown msg) s))) =
        map_option fst (calculateCustomTizo amountRb s)) \<and>
   (malformed_rows rows \<longrightarrow>
      fst (loadUpsellOffersCache (Returned rows) s) = Returned ()
    \<and> snapshot (snd (loadUpsellOffersCache (Returned rows) s)) = Some rows
    \<and> take (length (heap s)) (heap (snd (loadUpsellOffersCache (Returned rows) s))) = heap s
    \<and> (0 \<le> amountRb \<and> amountRb mod 600 \<noteq> 0 \<longrightarrow>
          map_option fst (calculateCustomTizo amountRb (snd (loadUpsellOffersCache (Returned rows) s)))
            = None))"
proof -
  let ?s' = "s\<lparr>console := console s @ [LoadFailed msg]\<rparr>"
  have l: "loadUpsellOffersCache (Thrown msg) s = (Returned (), ?s')"
    by (simp add: loadUpsellOffersCache_def)
  have "snapshot ?s' = snapshot s" by (simp add: snapshot_def split: option.splits)
  then have rejected: "loadUpsellOffersCache (Thrown msg) s = (Returned (), ?s')
    \<and> upsellOffersCache (snd (loadUpsellOffersCache (Thrown msg) s)) = upsellOffersCache s
    \<and> heap (snd (loadUpsellOffersCache (Thrown msg) s)) = heap s
    \<and> snapshot (snd (loadUpsellOffersCache (Thrown msg) s)) = snapshot s
    \<and> convert amountRb (snapshot (snd (loadUpsellOffersCache (Thrown msg) s))) =
        convert amountRb (snapshot s)
    \<and> map_option fst (calculateCustomTizo amountRb (snd (loadUpsellOffersCache (Thrown msg) s))) =
        map_option fst (calculateCustomTizo amountRb s)"
    by (simp add: l calculateCustomTizo_convert)
  let ?t = "snd (loadUpsellOffersCache (Returned rows) s)"
  have r: "fst (loadUpsellOffersCache (Returned rows) s) = Returned ()"
    and sn: "snapshot ?t = Some rows"
    and hp: "take (length (heap s)) (heap ?t) = heap s"
    by (simp_all add: loadUpsellOffersCache_Returned snapshot_def)
  have hang: "map_option fst (calculateCustomTizo amountRb ?t) = None"
    if "malformed_rows rows" and "0 \<le> amountRb" and "amountRb mod 600 \<noteq> 0"
  proof -
    from that(1) have "\<exists>x \<in> set rows. topup_rb x \<le> 0" by (simp add: malformed_rows_def)
    from convert_forever [OF this that(2,3)] show ?thesis
      by (simp only: calculateCustomTizo_convert sn)
  qed
  from rejected r sn hp hang show ?thesis by blast
qed

text \<open>
  Witness for the amended C3: a cache with the rows 550 and 40 is reloaded with the row
  40 and a row whose \<open>topup_rb\<close> is 0; the amount 1790 then makes the calculator loop.
\<close>

theorem loadUpsellOffersCache_failure_witness:
  "fst (loadUpsellOffersCache (Returned [tier_40, \<lparr>topup_rb = 0, tizo_value = 0\<rparr>])
          (server_with (Some [tier_550, tier_40]))) = Returned () \<and>
   snapshot (snd (loadUpsellOffersCache (Returned [tier_40, \<lparr>topup_rb = 0, tizo_value = 0\<rparr>])
          (server_with (Some [tier_550, tier_40])))) =
     Some [tier_40, \<lparr>topup_rb = 0, tizo_value = 0\<rparr>] \<and>
   map_option fst (calculateCustomTizo 1790
     (snd (loadUpsellOffersCache (Returned [tier_40, \<lparr>topup_rb = 0, tizo_value = 0\<rparr>])
          (server_with (Some [tier_550, tier_40]))))) = None"
  using loadUpsellOffersCache_failure
    [of "''''" "server_with (Some [tier_550, tier_40])" 1790
      "[tier_40, \<lparr>topup_rb = 0, tizo_value = 0\<rparr>]"]
  by (simp add: malformed_rows_def)

text \<open>
  Claim C4, as stated, fails: the engine rounds the last addition. With an uninitialised
  cache the amount 4503599627370601 (an integer below \<open>2^53\<close>) leaves 9007199254741200
  after the base tier and a remainder of 1; their sum is odd and above \<open>2^53\<close>, so the
  calculator returns 9007199254741200, not \<open>(a div 600) * 1200 + a mod 600 =
  9007199254741201\<close>.
\<close>

theorem calculateCustomTizo_empty_cache_counterexample:
  "convert_number 4503599627370601 None = Some 9007199254741200 \<and>
   (4503599627370601 div 600) * 1200 + 4503599627370601 mod 600 = (9007199254741201 :: int)"
  by code_simp

text \<open>
  Claim C4, amended. With an empty or uninitialised cache, a non-negative amount \<open>a\<close>
  for which \<open>(a div 600) * 1200 + a mod 600\<close> is at most \<open>2^53\<close> (every \<open>a\<close> up to
  \<open>2^52\<close> is such an amount) yields exactly this value, and the call returns.
\<close>

theorem calculateCustomTizo_empty_cache:
  assumes "0 \<le> amountRb" and "(amountRb div 600) * 1200 + amountRb mod 600 \<le> 2 ^ 53"
    and "snap = None \<or> snap = Some []"
  shows "convert_number amountRb snap = Some ((amountRb div 600) * 1200 + amountRb mod 600)"
proof -
  define k m where "k = amountRb div 600" and "m = amountRb mod 600"
  have k: "0 \<le> k" using assms(1) by (simp add: k_def pos_imp_zdiv_nonneg_iff)
  have m: "0 \<le> m" by (simp add: m_def)
  from assms(2) have le: "k * 1200 + m \<le> 9007199254740992" by (simp add: k_def m_def)
  from k have k0: "0 \<le> k * 1200" by simp
  from le m have "k * 1200 \<le> 9007199254740992" by simp
  with k0 have e1: "binary64 (k * 1200) = k * 1200" by (intro binary64_exact)
  from k0 m le have e2: "binary64 (k * 1200 + m) = k * 1200 + m" by (intro binary64_exact) simp_all
  have b: "base600_number amountRb = (k * 1200, m)"
  proof (cases "0 < k")
    case True
    with assms(1) show ?thesis
      by (simp add: base600_number_def Let_def js_add_def js_mul_def js_rem_nonneg e1
          k_def [symmetric] m_def [symmetric])
  next
    case False
    with k have z: "k = 0" by simp
    then have "amountRb div 600 = 0" by (simp add: k_def)
    with assms(1) have "amountRb < 600" by (auto simp add: zdiv_eq_0_iff)
    with assms(1) have "m = amountRb" by (simp add: m_def)
    with z show ?thesis by (simp add: base600_number_def Let_def k_def [symmetric])
  qed
  have "residual_number (k * 1200, m) = k * 1200 + m"
    using m e2 by (cases "m = 0") (simp_all add: residual_number_def js_add_def)
  with b show ?thesis
    by (simp add: calculateCustomTizo_number_empty [OF assms(3)] k_def m_def)
qed

text \<open>
  Witness for the amended C4: 590 yields 590 on an empty and on an uninitialised cache;
  \<open>2^52\<close> yields 9007199254740496.
\<close>

theorem calculateCustomTizo_empty_cache_witness:
  "convert_number 590 (Some []) = Some 590 \<and> convert_number 590 None = Some 590 \<and>
   convert_number 4503599627370496 None = Some 9007199254740496"
  using calculateCustomTizo_empty_cache [of 590 "Some []"]
    calculateCustomTizo_empty_cache [of 590 None]
    calculateCustomTizo_empty_cache [of 4503599627370496 None]
  by simp

text \<open>
  Claim C5. For a non-negative amount and a cache in which every row awards at least
  what it consumes, a result is never below the amount. The call returns whenever every
  \<open>topup_rb\<close> is positive, in particular on an empty or uninitialised cache.
\<close>

theorem calculateCustomTizo_never_less_than_input:
  assumes "0 \<le> amountRb" and "\<forall>x \<in> set (tiers snap). topup_rb x \<le> tizo_value x"
  shows "(\<forall>t. convert amountRb snap = Some t \<longrightarrow> amountRb \<le> t) \<and>
         ((\<forall>x \<in> set (tiers snap). 0 < topup_rb x) \<longrightarrow>
            (\<exists>t. convert amountRb snap = Some t \<and> amountRb \<le> t)) \<and>
         (tiers snap = [] \<longrightarrow> (\<exists>t. convert amountRb snap = Some t \<and> amountRb \<le> t))"
proof -
  define k m where "k = amountRb div 600" and "m = amountRb mod 600"
  have b: "base600 amountRb = (k * 1200, m)"
    using assms(1) by (simp add: base600_nonneg k_def m_def)
  have k: "0 \<le> k" using assms(1) by (simp add: k_def pos_imp_zdiv_nonneg_iff)
  have m: "0 \<le> m" by (simp add: m_def)
  have a: "amountRb = k * 600 + m" by (simp add: k_def m_def)
  from k a have le: "amountRb \<le> k * 1200 + m" by simp
  have partial: "amountRb \<le> t" if "convert amountRb snap = Some t" for t
  proof (cases "0 < m \<and> tiers snap \<noteq> []")
    case True
    with that b obtain st where f: "for_offers (validOffers (tiers snap)) (k * 1200) m = Some st"
      and t: "t = residual st"
      by (auto simp add: convert_unfold)
    from assms(2) have "\<forall>x \<in> set (validOffers (tiers snap)). topup_rb x \<le> tizo_value x"
      by (simp add: set_validOffers)
    from for_offers_bonus [OF f this] have "k * 1200 + m \<le> fst st + snd st" .
    moreover have "fst st + snd st \<le> residual st"
      by (cases st) (simp add: residual_def)
    ultimately show ?thesis using le t by simp
  next
    case False
    with that b have "t = residual (k * 1200, m)" by (auto simp add: convert_unfold)
    with m le show ?thesis by (simp add: residual_def)
  qed
  have total: "\<exists>t. convert amountRb snap = Some t" if "\<forall>x \<in> set (tiers snap). 0 < topup_rb x"
  proof -
    from that have "\<forall>x \<in> set (validOffers (tiers snap)). 0 < topup_rb x"
      by (simp add: set_validOffers)
    from for_offers_pos [OF this m] obtain t r
      where "for_offers (validOffers (tiers snap)) (k * 1200) m = Some (t, r)" by blast
    with b show ?thesis by (simp add: convert_unfold)
  qed
  from partial total show ?thesis by auto
qed

text \<open>
  Witness for C5: 1790 on the cache of the example, 590 on an uninitialised cache.
\<close>

theorem calculateCustomTizo_never_less_than_input_witness:
  "(\<exists>t. convert 1790 (Some [tier_40, tier_550]) = Some t \<and> 1790 \<le> t) \<and>
   (\<exists>t. convert 590 None = Some t \<and> 590 \<le> t)"
  using calculateCustomTizo_never_less_than_input [of 1790 "Some [tier_40, tier_550]"]
    calculateCustomTizo_never_less_than_input [of 590 None]
  by (simp add: tiers_def)

text \<open>
  Claim C6. Whatever the server holds, the amounts 0, 600 and 1200 yield 0, 1200 and 2400:
  the remainder after the base tier is 0, so the cache is not read, and the server is
  left as it was.
\<close>

theorem calculateCustomTizo_base_multiples:
  "calculateCustomTizo 0 s = Some (0, s) \<and>
   calculateCustomTizo 600 s = Some (1200, s) \<and>
   calculateCustomTizo 1200 s = Some (2400, s)"
proof -
  have b: "base600 0 = (0, 0)" "base600 600 = (1200, 0)" "base600 1200 = (2400, 0)"
    by (simp_all add: base600_nonneg)
  show ?thesis
  proof (cases "upsellOffersCache s")
    case None
    then show ?thesis by (simp add: calculateCustomTizo_null b residual_def)
  next
    case (Some r)
    have "\<not> (0 < snd (base600 0) \<and> heap s ! r \<noteq> [])"
      "\<not> (0 < snd (base600 600) \<and> heap s ! r \<noteq> [])"
      "\<not> (0 < snd (base600 1200) \<and> heap s ! r \<noteq> [])"
      by (simp_all add: b)
    then show ?thesis
      by (simp add: calculateCustomTizo_skip [OF Some] b residual_def)
  qed
qed

text \<open>
  Claim C7. Rows with \<open>topup_rb \<ge> 600\<close> are never selected: the result (a credit, or a
  call that never returns) is the same on a cache as on the cache without these rows.
\<close>

theorem calculateCustomTizo_ignores_600_and_above:
  "convert amountRb (Some xs) = convert amountRb (Some (filter (\<lambda>x. \<not> 600 \<le> topup_rb x) xs))"
proof -
  let ?ys = "filter (\<lambda>x. \<not> 600 \<le> topup_rb x) xs"
  have f: "filter (\<lambda>x. topup_rb x < 600) ?ys = filter (\<lambda>x. topup_rb x < 600) xs"
    by (simp add: not_le)
  have g: "?ys = filter (\<lambda>x. topup_rb x < 600) xs"
    by (simp add: not_le)
  show ?thesis
  proof (cases "?ys = []")
    case True
    with g have "validOffers xs = []" by (simp add: sort_cmp_def)
    with True show ?thesis by (simp add: convert_unfold tiers_def)
  next
    case False
    then have "xs \<noteq> []" by auto
    with False show ?thesis by (simp only: convert_unfold tiers_def option.case f)
  qed
qed

text \<open>
  Claim C8. After a resolved query, the call returns normally, the cache variable points
  to a new array object holding exactly the rows of the result, in the order of the
  result, which is ascending in \<open>topup_rb\<close> and has the rows of the table; the array
  objects that existed before, the previous cache among them, are unchanged: the
  collection is replaced by the one assignment to the variable.
\<close>

theorem loadUpsellOffersCache_success:
  assumes "select_order_by_topup_rb table rows"
  shows "fst (loadUpsellOffersCache (Returned rows) s) = Returned () \<and>
         snapshot (snd (loadUpsellOffersCache (Returned rows) s)) = Some rows \<and>
         mset rows = mset table \<and> sorted (map topup_rb rows) \<and>
         upsellOffersCache (snd (loadUpsellOffersCache (Returned rows) s)) = Some (length (heap s)) \<and>
         take (length (heap s)) (heap (snd (loadUpsellOffersCache (Returned rows) s))) = heap s \<and>
         console (snd (loadUpsellOffersCache (Returned rows) s)) = console s @ [Loaded (length rows)] \<and>
         wf_server (snd (loadUpsellOffersCache (Returned rows) s))"
proof -
  have "loadUpsellOffersCache (Returned rows) s =
        (Returned (), s\<lparr>heap := heap s @ [rows], upsellOffersCache := Some (length (heap s)),
                          console := console s @ [Loaded (length rows)]\<rparr>)"
    by (simp add: loadUpsellOffersCache_def alloc_def)
  with assms show ?thesis
    by (simp add: snapshot_def wf_server_def select_order_by_topup_rb_def)
qed

text \<open>
  Witness for C8: a table stored as \<open>[550, 40]\<close>, answered as \<open>[40, 550]\<close>, loaded
  over a cache that held a single row of 100.
\<close>

theorem loadUpsellOffersCache_success_witness:
  "snapshot (snd (loadUpsellOffersCache (Returned [tier_40, tier_550])
      (server_with (Some [\<lparr>topup_rb = 100, tizo_value = 150\<rparr>])))) = Some [tier_40, tier_550]"
  using loadUpsellOffersCache_success [of "[tier_550, tier_40]" "[tier_40, tier_550]"
      "server_with (Some [\<lparr>topup_rb = 100, tizo_value = 150\<rparr>])"]
  by (simp add: select_order_by_topup_rb_def)

text \<open>
  Claim C9. The credit depends on the amount and on the snapshot alone: two servers with
  the same snapshot give the same result. A call that returns leaves the cache variable,
  the console and every existing array object as they were (\<open>sort\<close> works on the array
  that \<open>filter\<close> allocated, not on the cache), so the snapshot is unchanged and a second
  call with the same amount returns the same credit. The function takes no query result:
  nothing is fetched during the call.
\<close>

theorem calculateCustomTizo_deterministic:
  "(snapshot s1 = snapshot s2 \<longrightarrow>
      map_option fst (calculateCustomTizo amountRb s1) = map_option fst (calculateCustomTizo amountRb s2)) \<and>
   (wf_server s \<and> calculateCustomTizo amountRb s = Some (t, s') \<longrightarrow>
      upsellOffersCache s' = upsellOffersCache s \<and> console s' = console s \<and>
      take (length (heap s)) (heap s') = heap s \<and> snapshot s' = snapshot s \<and>
      wf_server s' \<and> map_option fst (calculateCustomTizo amountRb s') = Some t)"
proof -
  have "snapshot s' = snapshot s \<and> upsellOffersCache s' = upsellOffersCache s \<and>
        console s' = console s \<and> take (length (heap s)) (heap s') = heap s \<and>
        wf_server s' \<and> map_option fst (calculateCustomTizo amountRb s') = Some t"
    if wf: "wf_server s" and c: "calculateCustomTizo amountRb s = Some (t, s')"
  proof -
    from calculateCustomTizo_effect [OF c] wf
    have st: "snapshot s' = snapshot s \<and> upsellOffersCache s' = upsellOffersCache s \<and>
        console s' = console s \<and> take (length (heap s)) (heap s') = heap s \<and> wf_server s'"
      by (auto simp add: snapshot_alloc wf_server_def split: option.splits)
    have "map_option fst (calculateCustomTizo amountRb s') = convert amountRb (snapshot s')"
      by (rule calculateCustomTizo_convert)
    also from st have "\<dots> = convert amountRb (snapshot s)" by simp
    also have "\<dots> = map_option fst (calculateCustomTizo amountRb s)"
      by (rule calculateCustomTizo_convert [symmetric])
    also from c have "\<dots> = Some t" by simp
    finally show ?thesis using st by simp
  qed
  moreover have "snapshot s1 = snapshot s2 \<longrightarrow>
      map_option fst (calculateCustomTizo amountRb s1) = map_option fst (calculateCustomTizo amountRb s2)"
    by (simp add: calculateCustomTizo_convert)
  ultimately show ?thesis by blast
qed

text \<open>
  Witness for C9: 1790 on the cache of the example; the second call runs on the server
  the first call left behind.
\<close>

theorem calculateCustomTizo_deterministic_witness:
  "map_option fst (calculateCustomTizo 1790
     \<lparr>heap = [[tier_40, tier_550], [tier_550, tier_40]], upsellOffersCache = Some 0, console = []\<rparr>) =
   Some 3460"
proof -
  let ?s = "\<lparr>heap = [[tier_40, tier_550]], upsellOffersCache = Some 0, console = []\<rparr>"
  let ?s' = "\<lparr>heap = [[tier_40, tier_550], [tier_550, tier_40]], upsellOffersCache = Some 0, console = []\<rparr>"
  have wf: "wf_server ?s" by (simp add: wf_server_def)
  have c: "calculateCustomTizo 1790 ?s = Some (3460, ?s')" by code_simp
  from calculateCustomTizo_deterministic [of ?s ?s 1790 ?s 3460 ?s'] wf c show ?thesis by simp
qed

text \<open>
  Claim C10. For a non-negative amount and a cache whose rows all have a positive
  \<open>topup_rb\<close>, the call returns; each round of the inner loop on such a row strictly
  decreases the remaining amount. Positivity is needed: if some row has \<open>topup_rb \<le> 0\<close>
  and the amount is not a multiple of 600, the call never returns.
\<close>

theorem calculateCustomTizo_terminates:
  assumes "0 \<le> amountRb"
  shows "((\<forall>x \<in> set (tiers snap). 0 < topup_rb x) \<longrightarrow> (\<exists>t. convert amountRb snap = Some t)) \<and>
         (\<forall>x \<in> set (tiers snap). \<forall>t r. 0 < topup_rb x \<and> topup_rb x \<le> r \<longrightarrow>
            while_offer x t r = while_offer x (t + tizo_value x) (r - topup_rb x) \<and>
            r - topup_rb x < r) \<and>
         ((\<exists>x \<in> set (tiers snap). topup_rb x \<le> 0) \<and> amountRb mod 600 \<noteq> 0 \<longrightarrow>
            convert amountRb snap = None)"
proof -
  define k m where "k = amountRb div 600" and "m = amountRb mod 600"
  have b: "base600 amountRb = (k * 1200, m)"
    using assms(1) by (simp add: base600_nonneg k_def m_def)
  have m: "0 \<le> m" by (simp add: m_def)
  have total: "\<exists>t. convert amountRb snap = Some t" if "\<forall>x \<in> set (tiers snap). 0 < topup_rb x"
  proof -
    from that have "\<forall>x \<in> set (validOffers (tiers snap)). 0 < topup_rb x"
      by (simp add: set_validOffers)
    from for_offers_pos [OF this m] obtain t r
      where "for_offers (validOffers (tiers snap)) (k * 1200) m = Some (t, r)" by blast
    with b show ?thesis by (simp add: convert_unfold)
  qed
  have step: "while_offer x t r = while_offer x (t + tizo_value x) (r - topup_rb x) \<and> r - topup_rb x < r"
    if "0 < topup_rb x \<and> topup_rb x \<le> r" for x t r
    using that by (simp add: while_offer_step)
  have forever: "convert amountRb snap = None"
    if "\<exists>x \<in> set (tiers snap). topup_rb x \<le> 0" and "amountRb mod 600 \<noteq> 0"
  proof -
    from that(2) m have pos: "0 < m" by (simp add: m_def)
    from that(1) have ne: "tiers snap \<noteq> []" by auto
    from that(1) have "\<exists>x \<in> set (validOffers (tiers snap)). topup_rb x \<le> 0"
      by (auto simp add: set_validOffers)
    from for_offers_diverges [OF this m]
    have "for_offers (validOffers (tiers snap)) (k * 1200) m = None" .
    with b pos ne show ?thesis by (simp add: convert_unfold)
  qed
  from total step forever show ?thesis by blast
qed

text \<open>
  Witness for C10: 1790 on the cache of the example returns; 1 on a cache with a row of
  \<open>topup_rb = 0\<close> never does.
\<close>

theorem calculateCustomTizo_terminates_witness:
  "(\<exists>t. convert 1790 (Some [tier_40, tier_550]) = Some t) \<and>
   while_offer tier_40 0 590 = while_offer tier_40 40 550 \<and>
   convert 1 (Some [\<lparr>topup_rb = 0, tizo_value = 0\<rparr>]) = None"
  using calculateCustomTizo_terminates [of 1790 "Some [tier_40, tier_550]"]
    calculateCustomTizo_terminates [of 1 "Some [\<lparr>topup_rb = 0, tizo_value = 0\<rparr>]"]
  by (simp add: tiers_def)

end
